theory Spec2Isabelle
  imports Main "HOL-Library.Sublist"
begin

section \<open>JavaScript values\<close>

text \<open>
  The values \<^verbatim>\<open>registerNpcApi\<close> of \<^verbatim>\<open>src/index.ts\<close> inspects at run time.  A function is
  known by its identity only.  \<^verbatim>\<open>JObj\<close> is a plain object, one whose prototype is
  \<^verbatim>\<open>Object.prototype\<close>: the list of its own properties, all enumerable, in the order
  \<^verbatim>\<open>for (const property in api)\<close> visits them.  \<^verbatim>\<open>JInstance\<close> is any other object, such
  as an \<^verbatim>\<open>Error\<close>: its number and its enumerable properties; what it holds besides is
  read through the engine (see \<^verbatim>\<open>js_member\<close>).
\<close>

datatype jsval =
    JUndefined
  | JNull
  | JBool bool
  | JNum int
  | JStr string
  | JFun nat
  | JObj "(string \<times> jsval) list"
  | JInstance nat "(string \<times> jsval) list"

text \<open>
  The value listed under a key, \<^verbatim>\<open>undefined\<close> when the key is not listed.  This is
  \<^verbatim>\<open>api[property]\<close> for a key \<^verbatim>\<open>property\<close> that \<^verbatim>\<open>for ... in\<close> enumerates.
\<close>

definition js_get :: "(string \<times> jsval) list \<Rightarrow> string \<Rightarrow> jsval" where
  "js_get ps k = (case map_of ps k of None \<Rightarrow> JUndefined | Some v \<Rightarrow> v)"

text \<open>The keys \<^verbatim>\<open>for ... in\<close> enumerates.\<close>

definition js_keys :: "(string \<times> jsval) list \<Rightarrow> string list" where
  "js_keys ps = map fst ps"

text \<open>The properties listed in a value: those of an object, none for any other value.\<close>

fun listed :: "jsval \<Rightarrow> (string \<times> jsval) list" where
  "listed (JObj ps) = ps"
| "listed (JInstance n ps) = ps"
| "listed _ = []"

text \<open>
  \<^verbatim>\<open>v[k]\<close> for a value that is neither \<^verbatim>\<open>undefined\<close> nor \<^verbatim>\<open>null\<close>: the property listed
  under \<^verbatim>\<open>k\<close>, and otherwise what the engine finds: a property on the prototype chain of
  \<^verbatim>\<open>v\<close> (\<^verbatim>\<open>valueOf\<close> of \<^verbatim>\<open>Object.prototype\<close> for a plain object, \<^verbatim>\<open>message\<close> of
  \<^verbatim>\<open>Error.prototype\<close> for an error), a property of \<^verbatim>\<open>v\<close> that is not enumerable
  (\<^verbatim>\<open>message\<close> of \<^verbatim>\<open>new Error('boom')\<close>), \<^verbatim>\<open>length\<close> and the characters of a string, or
  \<^verbatim>\<open>undefined\<close> when there is none.  The engine is a parameter.
\<close>

definition js_member :: "(jsval \<Rightarrow> string \<Rightarrow> jsval) \<Rightarrow> jsval \<Rightarrow> string \<Rightarrow> jsval" where
  "js_member engine v k =
     (case map_of (listed v) k of
        Some x \<Rightarrow> x
      | None \<Rightarrow> engine v k)"

text \<open>
  \<^verbatim>\<open>o?.[property]\<close>: \<^verbatim>\<open>undefined\<close> when \<^verbatim>\<open>o\<close> is \<^verbatim>\<open>undefined\<close> or \<^verbatim>\<open>null\<close>, the member
  otherwise.
\<close>

fun js_optional_get :: "(jsval \<Rightarrow> string \<Rightarrow> jsval) \<Rightarrow> jsval \<Rightarrow> string \<Rightarrow> jsval" where
  "js_optional_get engine JUndefined k = JUndefined"
| "js_optional_get engine JNull k = JUndefined"
| "js_optional_get engine v k = js_member engine v k"

text \<open>JavaScript truthiness, as the conditional \<^verbatim>\<open>middleware ? ... : ...\<close> and \<^verbatim>\<open>&&\<close> read it.\<close>

fun truthy :: "jsval \<Rightarrow> bool" where
  "truthy JUndefined = False"
| "truthy JNull = False"
| "truthy (JBool b) = b"
| "truthy (JNum n) = (n \<noteq> 0)"
| "truthy (JStr s) = (s \<noteq> [])"
| "truthy (JFun f) = True"
| "truthy (JObj ps) = True"
| "truthy (JInstance n ps) = True"

section \<open>Path composition: \<^verbatim>\<open>join\<close> of Node's \<^verbatim>\<open>path\<close> module\<close>

text \<open>
  \<^verbatim>\<open>import { join } from "path"\<close> binds \<^verbatim>\<open>join\<close> to \<^verbatim>\<open>path.posix.join\<close> or to
  \<^verbatim>\<open>path.win32.join\<close>, whichever the host platform is, so the platform is a parameter of
  the model.  The definitions follow Node's \<^verbatim>\<open>lib/path.js\<close>: the arguments that are
  not empty are joined by the separator and the result is normalised, piece by piece.
  (Later releases of Node treat a relative Windows path that holds a colon differently;
  the theorems about Windows below are about segments without one.)
\<close>

datatype platform = Posix | Win32

definition backslash :: char where
  "backslash = CHR 0x5C"

fun sep :: "platform \<Rightarrow> char" where
  "sep Posix = CHR ''/''"
| "sep Win32 = backslash"

fun isPathSeparator :: "platform \<Rightarrow> char \<Rightarrow> bool" where
  "isPathSeparator Posix c = (c = CHR ''/'')"
| "isPathSeparator Win32 c = (c = CHR ''/'' \<or> c = backslash)"

definition isWindowsDeviceRoot :: "char \<Rightarrow> bool" where
  "isWindowsDeviceRoot c =
     (let n = (of_char c :: nat) in (65 \<le> n \<and> n \<le> 90) \<or> (97 \<le> n \<and> n \<le> 122))"

text \<open>The pieces of a path between its separators, empty pieces included.\<close>

fun segments :: "(char \<Rightarrow> bool) \<Rightarrow> string \<Rightarrow> string list" where
  "segments issep [] = [[]]"
| "segments issep (c # cs) =
     (if issep c then [] # segments issep cs
      else (case segments issep cs of
              [] \<Rightarrow> [[c]]
            | s # ss \<Rightarrow> (c # s) # ss))"

text \<open>
  \<^verbatim>\<open>normalizeString\<close>: one step per piece.  An empty piece and \<^verbatim>\<open>.\<close> are dropped;
  \<^verbatim>\<open>..\<close> removes the last piece kept unless there is none or it is \<^verbatim>\<open>..\<close> itself, and
  is then kept only when the path may climb above its root; every other piece is kept.
\<close>

definition normalize_step :: "bool \<Rightarrow> string list \<Rightarrow> string \<Rightarrow> string list" where
  "normalize_step allowAboveRoot res seg =
     (if seg = [] \<or> seg = ''.'' then res
      else if seg = ''..'' then
        (if res \<noteq> [] \<and> last res \<noteq> ''..'' then butlast res
         else if allowAboveRoot then res @ [''..'']
         else res)
      else res @ [seg])"

fun intercalate :: "char \<Rightarrow> string list \<Rightarrow> string" where
  "intercalate c [] = []"
| "intercalate c [s] = s"
| "intercalate c (s # t # ss) = s @ c # intercalate c (t # ss)"

definition normalizeString :: "platform \<Rightarrow> bool \<Rightarrow> string \<Rightarrow> string" where
  "normalizeString pf allowAboveRoot path =
     intercalate (sep pf)
       (foldl (normalize_step allowAboveRoot) [] (segments (isPathSeparator pf) path))"

definition posix_normalize :: "string \<Rightarrow> string" where
  "posix_normalize path =
     (if path = [] then ''.''
      else
        let isAbsolute = (hd path = CHR ''/'');
            trailingSeparator = (last path = CHR ''/'');
            p = normalizeString Posix (\<not> isAbsolute) path
        in if p = [] then
             (if isAbsolute then ''/'' else if trailingSeparator then ''./'' else ''.'')
           else
             let p' = (if trailingSeparator then p @ ''/'' else p)
             in if isAbsolute then CHR ''/'' # p' else p')"

definition posix_join :: "string list \<Rightarrow> string" where
  "posix_join args =
     (case filter (\<lambda>arg. arg \<noteq> []) args of
        [] \<Rightarrow> ''.''
      | parts \<Rightarrow> posix_normalize (intercalate (CHR ''/'') parts))"

text \<open>
  The root of a Windows path: a UNC root with nothing after it (the result is then known
  at once), or where the root ends, the device if any, and whether the path is absolute.
\<close>

datatype win32_root =
    UncOnly string
  | Root nat "string option" bool

definition win32_unc_root :: "string \<Rightarrow> win32_root" where
  "win32_unc_root path =
     (let len = length path;
          issep = isPathSeparator Win32;
          firstPart = takeWhile (\<lambda>c. \<not> issep c) (drop 2 path);
          j1 = 2 + length firstPart
      in if j1 < len \<and> firstPart \<noteq> [] then
           (let rest = dropWhile issep (drop j1 path);
                j2 = len - length rest
            in if j2 < len \<and> j2 \<noteq> j1 then
                 (let share = takeWhile (\<lambda>c. \<not> issep c) rest;
                      j3 = j2 + length share
                  in if j3 = len then
                       UncOnly ([backslash, backslash] @ firstPart @ [backslash] @ rest @ [backslash])
                     else if j3 \<noteq> j2 then
                       Root j3 (Some ([backslash, backslash] @ firstPart @ [backslash] @ share)) True
                     else Root 0 None True)
               else Root 0 None True)
         else Root 0 None True)"

definition win32_find_root :: "string \<Rightarrow> win32_root" where
  "win32_find_root path =
     (let len = length path; code = path ! 0 in
      if isPathSeparator Win32 code then
        (if isPathSeparator Win32 (path ! 1) then win32_unc_root path
         else Root 1 None True)
      else if isWindowsDeviceRoot code \<and> path ! 1 = CHR '':'' then
        (if len > 2 \<and> isPathSeparator Win32 (path ! 2) then Root 3 (Some (take 2 path)) True
         else Root 2 (Some (take 2 path)) False)
      else Root 0 None False)"

definition win32_normalize :: "string \<Rightarrow> string" where
  "win32_normalize path =
     (let len = length path in
      if len = 0 then ''.''
      else if len = 1 then (if hd path = CHR ''/'' then [backslash] else path)
      else
        (case win32_find_root path of
           UncOnly r \<Rightarrow> r
         | Root rootEnd device isAbsolute \<Rightarrow>
             let tail0 = (if rootEnd < len
                          then normalizeString Win32 (\<not> isAbsolute) (drop rootEnd path)
                          else []);
                 tail1 = (if tail0 = [] \<and> \<not> isAbsolute then ''.'' else tail0);
                 tail2 = (if tail1 \<noteq> [] \<and> isPathSeparator Win32 (last path)
                          then tail1 @ [backslash] else tail1)
             in (case device of
                   None \<Rightarrow> (if isAbsolute then backslash # tail2 else tail2)
                 | Some d \<Rightarrow> (if isAbsolute then d @ backslash # tail2 else d @ tail2))))"

text \<open>
  \<^verbatim>\<open>path.win32.join\<close> replaces a run of two or more leading separators by one, unless
  the first non-empty argument starts with exactly two separators (a UNC path meant).
\<close>

definition win32_join :: "string list \<Rightarrow> string" where
  "win32_join args =
     (case filter (\<lambda>arg. arg \<noteq> []) args of
        [] \<Rightarrow> ''.''
      | firstPart # more \<Rightarrow>
          let issep = isPathSeparator Win32;
              joined = intercalate backslash (firstPart # more);
              needsReplace =
                \<not> (issep (firstPart ! 0) \<and> length firstPart > 2 \<and> issep (firstPart ! 1)
                   \<and> \<not> issep (firstPart ! 2));
              slashCount = length (takeWhile issep joined)
          in win32_normalize
               (if needsReplace \<and> slashCount \<ge> 2 then backslash # drop slashCount joined
                else joined))"

fun join :: "platform \<Rightarrow> string list \<Rightarrow> string" where
  "join Posix args = posix_join args"
| "join Win32 args = win32_join args"

text \<open>
  A plain segment: not empty, not \<^verbatim>\<open>.\<close> or \<^verbatim>\<open>..\<close>, holding no separator of the platform
  and, on Windows, no colon (which would make a drive of it).
\<close>

definition plain :: "platform \<Rightarrow> string \<Rightarrow> bool" where
  "plain pf s =
     (s \<noteq> [] \<and> s \<noteq> ''.'' \<and> s \<noteq> ''..'' \<and> list_all (\<lambda>c. \<not> isPathSeparator pf c) s
      \<and> (pf = Win32 \<longrightarrow> CHR '':'' \<notin> set s))"

section \<open>Validation at the boundary\<close>

text \<open>A validation error names the schema that refused the value.\<close>

datatype schema = StringSchema | CallbackSchema | NpcApiSchema

datatype error =
    ValidationError schema
  | RegistrationError string

text \<open>\<^verbatim>\<open>z.string().parse(v)\<close>: every string passes, the empty one too; anything else throws.\<close>

fun z_string_parse :: "jsval \<Rightarrow> error + string" where
  "z_string_parse (JStr s) = Inr s"
| "z_string_parse _ = Inl (ValidationError StringSchema)"

text \<open>
  Modelled from the spec: \<^verbatim>\<open>callbackSchema\<close> is imported from the package
  \<^verbatim>\<open>@toebean/npc\<close> and is not under \<^verbatim>\<open>src/\<close>.  The spec (section 4.1) has a value be a
  handler when it is invocable, and \<^verbatim>\<open>src/index.ts\<close> gives what passes the type
  \<^verbatim>\<open>Callback\<close>, a function type.  So exactly the functions pass.  What \<^verbatim>\<open>parse\<close> returns
  for a function (zod wraps it to validate its calls) is given here the identity of the
  function it was made from.
\<close>

fun callbackSchema_parse :: "jsval \<Rightarrow> error + jsval" where
  "callbackSchema_parse (JFun f) = Inr (JFun f)"
| "callbackSchema_parse _ = Inl (ValidationError CallbackSchema)"

text \<open>\<^verbatim>\<open>callbackSchema.safeParse(v).success\<close>\<close>

definition callbackSchema_success :: "jsval \<Rightarrow> bool" where
  "callbackSchema_success v = (case callbackSchema_parse v of Inl _ \<Rightarrow> False | Inr _ \<Rightarrow> True)"

section \<open>The collaborators: endpoint factory, transport and logger\<close>

text \<open>
  What \<^verbatim>\<open>registerNpcApi\<close> does to the world is the sequence of its calls to the
  collaborators, oldest first.  \<^verbatim>\<open>create\<close> makes a new endpoint, numbered by the count of
  earlier \<^verbatim>\<open>create\<close> calls; the other calls name the endpoint they are made on.
  \<^verbatim>\<open>On\<close> is \<^verbatim>\<open>npc.on(event, listener)\<close> with the listener of line 44, the only one the
  source ever attaches.  \<^verbatim>\<open>Close\<close> is how an endpoint of \<^verbatim>\<open>@toebean/npc\<close> stops
  listening (the source has no call of it), and \<^verbatim>\<open>Log\<close> is a call of \<^verbatim>\<open>log\<close> of
  \<^verbatim>\<open>vortex-api\<close>.
\<close>

datatype effect =
    Create jsval "jsval option"
  | On nat string
  | Listen nat string
  | Close nat
  | Log string jsval jsval

type_synonym world = "effect list"

fun is_Create :: "effect \<Rightarrow> bool" where
  "is_Create (Create c m) = True"
| "is_Create _ = False"

fun is_Close :: "effect \<Rightarrow> bool" where
  "is_Close (Close n) = True"
| "is_Close _ = False"

fun is_Log :: "effect \<Rightarrow> bool" where
  "is_Log (Log l m d) = True"
| "is_Log _ = False"

definition creates :: "world \<Rightarrow> nat" where
  "creates w = length (filter is_Create w)"

text \<open>
  A promise: the instant it settles and what it settles to.  Instant 0 is the call
  itself: an exception thrown in the body of an \<^verbatim>\<open>async\<close> function before its first
  \<^verbatim>\<open>await\<close> rejects the promise at once.
\<close>

datatype 'a promise = Promise (settled_at: nat) (outcome: "error + 'a")

text \<open>
  What a call resolves to: the single form to \<^verbatim>\<open>npc.endpoint\<close>, of type
  \<^verbatim>\<open>string | undefined\<close>, the batch form to the array of what its inner calls resolved to.
\<close>

datatype reg_result =
    Identifier "string option"
  | Identifiers "reg_result list"

text \<open>
  The parameters of the model: the host platform; \<^verbatim>\<open>npcApiSchema.parse\<close> of the package
  \<^verbatim>\<open>@toebean/npc-vortex-api\<close> (not under \<^verbatim>\<open>src/\<close>), giving the properties of the parsed
  object, a plain one, or nothing when it throws; the transport: for the endpoint number
  and the name passed to \<^verbatim>\<open>npc.listen\<close>, the instant the returned promise settles, and
  either the reason of its rejection or the value \<^verbatim>\<open>npc.endpoint\<close> has afterwards; and the
  engine's answer for a member that is not listed in a value.
\<close>

record env =
  platform :: platform
  npcApiSchema :: "jsval \<Rightarrow> (string \<times> jsval) list option"
  listen :: "nat \<Rightarrow> string \<Rightarrow> nat \<times> (string + string option)"
  unlisted :: "jsval \<Rightarrow> string \<Rightarrow> jsval"

text \<open>
  \<^verbatim>\<open>Promise.all\<close>: rejected with the reason of the promise that rejects first (of two at the
  same instant, the one earlier in the array), otherwise fulfilled, once all are, with the
  values in the order of the array.
\<close>

fun first_rejection :: "'a promise list \<Rightarrow> (nat \<times> error) option" where
  "first_rejection [] = None"
| "first_rejection (p # ps) =
     (case outcome p of
        Inr v \<Rightarrow> first_rejection ps
      | Inl e \<Rightarrow>
          (case first_rejection ps of
             None \<Rightarrow> Some (settled_at p, e)
           | Some (t, e') \<Rightarrow> if settled_at p \<le> t then Some (settled_at p, e) else Some (t, e')))"

fun fulfilled_values :: "'a promise list \<Rightarrow> 'a list" where
  "fulfilled_values [] = []"
| "fulfilled_values (p # ps) =
     (case outcome p of
        Inr v \<Rightarrow> v # fulfilled_values ps
      | Inl e \<Rightarrow> fulfilled_values ps)"

definition promise_all :: "'a promise list \<Rightarrow> 'a list promise" where
  "promise_all ps =
     (case first_rejection ps of
        Some (t, e) \<Rightarrow> Promise t (Inl e)
      | None \<Rightarrow> Promise (foldr max (map settled_at ps) 0) (Inr (fulfilled_values ps)))"

text \<open>
  What the batch form returns, \<^verbatim>\<open>Promise.all(promises)\<close>: the array of what the inner
  calls resolved to, or the first rejection.
\<close>

definition aggregate :: "reg_result promise list \<Rightarrow> reg_result promise" where
  "aggregate promises =
     (case promise_all promises of Promise t r \<Rightarrow> Promise t (map_sum id Identifiers r))"

text \<open>
  The promise of one registration that reached \<^verbatim>\<open>await npc.listen(name)\<close>: it settles
  when the transport does, rejected with the transport's reason or resolved to
  \<^verbatim>\<open>npc.endpoint\<close>.
\<close>

definition entry_promise :: "env \<Rightarrow> nat \<Rightarrow> string \<Rightarrow> reg_result promise" where
  "entry_promise E npc name =
     (case listen E npc name of (t, r) \<Rightarrow> Promise t (map_sum RegistrationError Identifier r))"

section \<open>\<^verbatim>\<open>registerNpcApi\<close>\<close>

text \<open>
  Lines 39 to 46, the single form: parse the callback, parse the middleware when it is
  truthy, create the endpoint, subscribe to its \<^verbatim>\<open>error\<close> event, listen on
  \<^verbatim>\<open>join('vortex', path)\<close>, and resolve to \<^verbatim>\<open>npc.endpoint\<close>.
\<close>

definition register_callback ::
  "env \<Rightarrow> world \<Rightarrow> string \<Rightarrow> jsval \<Rightarrow> jsval \<Rightarrow> reg_result promise \<times> world" where
  "register_callback E w path callbackOrApi middleware =
     (case callbackSchema_parse callbackOrApi of
        Inl e \<Rightarrow> (Promise 0 (Inl e), w)
      | Inr callback \<Rightarrow>
          (case (if truthy middleware then map_sum id Some (callbackSchema_parse middleware)
                 else Inr None) of
             Inl e \<Rightarrow> (Promise 0 (Inl e), w)
           | Inr mw \<Rightarrow>
               let npc = creates w;
                   name = join (platform E) [''vortex'', path]
               in (entry_promise E npc name,
                   w @ [Create callback mw, On npc ''error'', Listen npc name])))"

text \<open>
  Lines 35 to 61.  The loop of the batch form runs each inner call up to its
  \<^verbatim>\<open>await\<close>, so the calls to the collaborators happen in the order of the properties; the
  promises are joined by \<^verbatim>\<open>Promise.all\<close>.
\<close>

function registerNpcApi ::
  "env \<Rightarrow> world \<Rightarrow> jsval \<Rightarrow> jsval \<Rightarrow> jsval \<Rightarrow> reg_result promise \<times> world" where
  "registerNpcApi E w pathOrNamespace callbackOrApi middleware =
     (case z_string_parse pathOrNamespace of
        Inl e \<Rightarrow> (Promise 0 (Inl e), w)
      | Inr name \<Rightarrow>
          if callbackSchema_success callbackOrApi then
            register_callback E w name callbackOrApi middleware
          else
            (case npcApiSchema E callbackOrApi of
               None \<Rightarrow> (Promise 0 (Inl (ValidationError NpcApiSchema)), w)
             | Some api \<Rightarrow>
                 let (promises, w') =
                   foldl (\<lambda>(promises, w) property.
                      if \<not> callbackSchema_success (js_get api property) then (promises, w)
                      else
                        let m = js_optional_get (unlisted E)
                                  (js_member (unlisted E) (JObj api) ''middleware'') property;
                            (p, w') =
                              (if truthy m \<and> callbackSchema_success m
                               then registerNpcApi E w (JStr (join (platform E) [name, property]))
                                      (js_get api property) m
                               else registerNpcApi E w (JStr (join (platform E) [name, property]))
                                      (js_get api property) JUndefined)
                        in (promises @ [p], w'))
                     ([], w) (js_keys api)
                 in (aggregate promises, w')))"
  by pat_completeness auto
termination
  by (relation "measure (\<lambda>(E, w, p, c, m). if callbackSchema_success c then 0 else 1)") auto

declare registerNpcApi.simps [simp del]

section \<open>Error events\<close>




section \<open>The batch form, entry by entry\<close>

text \<open>The properties the loop registers: those whose value passes \<^verbatim>\<open>callbackSchema\<close>.\<close>

definition handler_keys :: "(string \<times> jsval) list \<Rightarrow> string list" where
  "handler_keys api = filter (\<lambda>k. callbackSchema_success (js_get api k)) (js_keys api)"

text \<open>
  \<^verbatim>\<open>api.middleware?.[k]\<close> when it passes \<^verbatim>\<open>callbackSchema\<close>.  Both reads are member reads
  of line 55: they find what is listed and, failing that, what the prototype chain holds.
\<close>

definition middleware_of :: "env \<Rightarrow> (string \<times> jsval) list \<Rightarrow> string \<Rightarrow> jsval option" where
  "middleware_of E api k =
     (let m = js_optional_get (unlisted E) (js_member (unlisted E) (JObj api) ''middleware'') k
      in if callbackSchema_success m then Some m else None)"

text \<open>The name the entry of property \<^verbatim>\<open>k\<close> listens on.\<close>

definition entry_name :: "env \<Rightarrow> string \<Rightarrow> string \<Rightarrow> string" where
  "entry_name E name k = join (platform E) [''vortex'', join (platform E) [name, k]]"

fun batch_events :: "env \<Rightarrow> string \<Rightarrow> (string \<times> jsval) list \<Rightarrow> nat \<Rightarrow> string list \<Rightarrow> effect list" where
  "batch_events E name api n [] = []"
| "batch_events E name api n (k # ks) =
     [Create (js_get api k) (middleware_of E api k), On n ''error'',
      Listen n (entry_name E name k)]
     @ batch_events E name api (Suc n) ks"

fun batch_promises :: "env \<Rightarrow> string \<Rightarrow> nat \<Rightarrow> string list \<Rightarrow> reg_result promise list" where
  "batch_promises E name n [] = []"
| "batch_promises E name n (k # ks) =
     entry_promise E n (entry_name E name k) # batch_promises E name (Suc n) ks"

section \<open>Example collaborators\<close>

text \<open>
  Modelled from the spec: \<^verbatim>\<open>npcApiSchema\<close> of the package \<^verbatim>\<open>@toebean/npc-vortex-api\<close> is
  not under \<^verbatim>\<open>src/\<close>.  The spec (sections 3, 4.3 and 8) has a namespace map be a plain
  mapping that may hold values that are no handlers, with an optional reserved property
  \<^verbatim>\<open>middleware\<close> that is a plain mapping.  The theorems below hold for every schema; this
  one serves the examples.
\<close>

definition namespace_schema :: "jsval \<Rightarrow> (string \<times> jsval) list option" where
  "namespace_schema v =
     (case v of
        JObj ps \<Rightarrow>
          (case map_of ps ''middleware'' of
             None \<Rightarrow> Some ps
           | Some JUndefined \<Rightarrow> Some ps
           | Some (JObj m) \<Rightarrow> Some ps
           | Some _ \<Rightarrow> None)
      | _ \<Rightarrow> None)"

text \<open>
  A transport that never refuses: endpoint number \<^verbatim>\<open>n\<close> is listening at instant
  \<^verbatim>\<open>n + 1\<close> and reports the name it was given.
\<close>

definition echo_listen :: "nat \<Rightarrow> string \<Rightarrow> nat \<times> (string + string option)" where
  "echo_listen n name = (Suc n, Inr (Some name))"

text \<open>A transport with a busy name: listening on it is refused at instant 1.\<close>

definition busy_listen :: "string \<Rightarrow> nat \<Rightarrow> string \<Rightarrow> nat \<times> (string + string option)" where
  "busy_listen busy n name =
     (if name = busy then (1, Inl ''EADDRINUSE'') else (n + 2, Inr (Some name)))"

text \<open>
  The engine of the examples.  A plain object inherits the functions of
  \<^verbatim>\<open>Object.prototype\<close>, numbered here from 1000 (its accessor \<^verbatim>\<open>__proto__\<close>, whose value
  is an object and no function, is left out).  Instance 0 is \<^verbatim>\<open>new Error()\<close>, whose
  \<^verbatim>\<open>message\<close> is the empty one of \<^verbatim>\<open>Error.prototype\<close>; every other instance is
  \<^verbatim>\<open>new Error('boom')\<close>.  The examples read \<^verbatim>\<open>message\<close> of an error and nothing else of
  it, and no member of a primitive or of a function.
\<close>

definition object_prototype :: "string \<Rightarrow> jsval" where
  "object_prototype k =
     (case map_of
        [(''constructor'', 1000 :: nat), (''hasOwnProperty'', 1001), (''isPrototypeOf'', 1002),
         (''propertyIsEnumerable'', 1003), (''toLocaleString'', 1004), (''toString'', 1005),
         (''valueOf'', 1006), (''__defineGetter__'', 1007), (''__defineSetter__'', 1008),
         (''__lookupGetter__'', 1009), (''__lookupSetter__'', 1010)] k of
        Some n \<Rightarrow> JFun n
      | None \<Rightarrow> JUndefined)"

definition example_unlisted :: "jsval \<Rightarrow> string \<Rightarrow> jsval" where
  "example_unlisted v k =
     (case v of
        JObj ps \<Rightarrow> object_prototype k
      | JInstance n ps \<Rightarrow>
          (if k = ''message'' then (if n = 0 then JStr [] else JStr ''boom'')
           else JUndefined)
      | _ \<Rightarrow> JUndefined)"

definition posix_env :: env where
  "posix_env = \<lparr>platform = Posix, npcApiSchema = namespace_schema, listen = echo_listen,
                 unlisted = example_unlisted\<rparr>"

definition win32_env :: env where
  "win32_env = \<lparr>platform = Win32, npcApiSchema = namespace_schema, listen = echo_listen,
                 unlisted = example_unlisted\<rparr>"

section \<open>Facts about path composition\<close>

lemma segments_plain:
  "list_all (\<lambda>c. \<not> issep c) s \<Longrightarrow> segments issep s = [s]"
  by (induction s) auto

lemma segments_append:
  "list_all (\<lambda>c. \<not> issep c) a \<Longrightarrow> issep c \<Longrightarrow>
   segments issep (a @ c # rest) = a # segments issep rest"
  by (induction a) auto

lemma issep_sep: "isPathSeparator pf (sep pf)"
  by (cases pf) simp_all

lemma normalizeString_two:
  assumes "plain pf b" and "plain pf s"
  shows "normalizeString pf aar (b @ sep pf # s) = b @ sep pf # s"
proof -
  from assms have "segments (isPathSeparator pf) (b @ sep pf # s) = [b, s]"
    by (simp add: plain_def segments_append segments_plain issep_sep)
  with assms show ?thesis
    by (simp add: normalizeString_def normalize_step_def plain_def)
qed

lemma normalizeString_dot:
  assumes "plain pf s"
  shows "normalizeString pf aar (CHR ''.'' # sep pf # s) = s"
proof -
  have "list_all (\<lambda>c. \<not> isPathSeparator pf c) ''.''"
    by (cases pf) (simp_all add: backslash_def)
  with assms have "segments (isPathSeparator pf) (''.'' @ sep pf # s) = [''.'', s]"
    by (simp only: segments_append issep_sep) (simp add: plain_def segments_plain)
  with assms show ?thesis
    by (simp add: normalizeString_def normalize_step_def plain_def)
qed

lemma plain_hd: "plain pf s \<Longrightarrow> \<not> isPathSeparator pf (hd s)"
  by (cases s) (simp_all add: plain_def)

lemma plain_last: "plain pf s \<Longrightarrow> \<not> isPathSeparator pf (last s)"
  by (auto simp: plain_def list_all_iff)

lemma posix_join_plain:
  assumes "plain Posix b" and "plain Posix s"
  shows "posix_join [b, s] = b @ CHR ''/'' # s"
proof -
  from assms have ne: "b \<noteq> []" "s \<noteq> []" by (simp_all add: plain_def)
  from ne have hd: "hd (b @ CHR ''/'' # s) = hd b" by simp
  from ne have la: "last (b @ CHR ''/'' # s) = last s" by simp
  from plain_hd[OF assms(1)] have h: "hd b \<noteq> CHR ''/''" by simp
  from plain_last[OF assms(2)] have l: "last s \<noteq> CHR ''/''" by simp
  from normalizeString_two[OF assms]
  have n: "normalizeString Posix True (b @ CHR ''/'' # s) = b @ CHR ''/'' # s" by simp
  show ?thesis using ne h l
    by (simp add: posix_join_def posix_normalize_def hd la n Let_def del: hd_append2 last_appendR)
qed

lemma posix_join_dot:
  assumes "plain Posix s"
  shows "posix_join [''.'', s] = s"
proof -
  from assms have ne: "s \<noteq> []" by (simp_all add: plain_def)
  from ne have la: "last (CHR ''.'' # CHR ''/'' # s) = last s" by simp
  from plain_last[OF assms] have l: "last s \<noteq> CHR ''/''" by simp
  from normalizeString_dot[OF assms]
  have n: "normalizeString Posix True (CHR ''.'' # CHR ''/'' # s) = s" by simp
  show ?thesis using ne l
    by (simp add: posix_join_def posix_normalize_def la n Let_def)
qed

lemma win32_normalize_relative:
  assumes len: "2 \<le> length path"
    and h: "\<not> isPathSeparator Win32 (hd path)"
    and c: "path ! 1 \<noteq> CHR '':''"
    and l: "\<not> isPathSeparator Win32 (last path)"
    and n: "normalizeString Win32 True path = r" and r: "r \<noteq> []"
  shows "win32_normalize path = r"
proof -
  from len have p0: "path ! 0 = hd path" by (cases path) simp_all
  have "win32_find_root path = Root 0 None False"
    using h c by (simp add: win32_find_root_def p0 Let_def)
  moreover from len have "path \<noteq> []" "length path \<noteq> Suc 0" by auto
  ultimately show ?thesis using l n r
    by (simp add: win32_normalize_def Let_def)
qed

lemma win32_join_two:
  assumes b: "b \<noteq> []" "\<not> isPathSeparator Win32 (hd b)" and s: "s \<noteq> []"
  shows "win32_join [b, s] = win32_normalize (b @ backslash # s)"
proof -
  from b have b0: "b ! 0 = hd b" by (cases b) simp_all
  from b have tw: "takeWhile (isPathSeparator Win32) (b @ backslash # s) = []"
    by (cases b) simp_all
  show ?thesis using b s
    by (simp add: win32_join_def Let_def b0 tw del: isPathSeparator.simps)
qed

lemma plain_second:
  assumes "plain Win32 b"
  shows "(b @ backslash # s) ! 1 \<noteq> CHR '':''"
proof (cases b)
  case Nil
  with assms show ?thesis by (simp add: plain_def)
next
  case (Cons x xs)
  with assms show ?thesis
    by (cases xs) (auto simp: plain_def backslash_def)
qed

lemma win32_join_plain:
  assumes "plain Win32 b" and "plain Win32 s"
  shows "win32_join [b, s] = b @ backslash # s"
proof -
  from assms have ne: "b \<noteq> []" "s \<noteq> []" by (simp_all add: plain_def)
  have len: "2 \<le> length (b @ backslash # s)" using ne by (cases b) simp_all
  from ne have hd: "hd (b @ backslash # s) = hd b" by simp
  from ne have la: "last (b @ backslash # s) = last s" by simp
  from normalizeString_two[OF assms]
  have n: "normalizeString Win32 True (b @ backslash # s) = b @ backslash # s" by simp
  have "win32_normalize (b @ backslash # s) = b @ backslash # s"
    by (rule win32_normalize_relative[OF len _ plain_second[OF assms(1)] _ n])
       (simp_all only: hd la plain_hd[OF assms(1)] plain_last[OF assms(2)] not_False_eq_True, simp)
  then show ?thesis
    using win32_join_two[OF ne(1) plain_hd[OF assms(1)] ne(2)] by simp
qed

lemma win32_join_dot:
  assumes "plain Win32 s"
  shows "win32_join [''.'', s] = s"
proof -
  from assms have ne: "s \<noteq> []" by (simp_all add: plain_def)
  from ne have la: "last (CHR ''.'' # backslash # s) = last s" by simp
  from normalizeString_dot[OF assms]
  have n: "normalizeString Win32 True (CHR ''.'' # backslash # s) = s" by simp
  have "win32_normalize (CHR ''.'' # backslash # s) = s"
    by (rule win32_normalize_relative[OF _ _ _ _ n])
       (simp_all only: la plain_last[OF assms] not_False_eq_True ne, simp_all add: backslash_def)
  moreover have "win32_join [''.'', s] = win32_normalize (''.'' @ backslash # s)"
    by (rule win32_join_two) (simp_all add: ne backslash_def)
  ultimately show ?thesis by simp
qed

lemma join_plain: "plain pf b \<Longrightarrow> plain pf s \<Longrightarrow> join pf [b, s] = b @ sep pf # s"
  by (cases pf) (simp_all add: posix_join_plain win32_join_plain)

lemma join_dot: "plain pf s \<Longrightarrow> join pf [''.'', s] = s"
  by (cases pf) (simp_all add: posix_join_dot win32_join_dot)

lemma plain_vortex: "plain pf ''vortex''"
  by (cases pf) (simp_all add: plain_def backslash_def)

lemma intercalate_Cons:
  "segs \<noteq> [] \<Longrightarrow> intercalate c (s # segs) = s @ c # intercalate c segs"
  by (cases segs) simp_all

lemma segments_intercalate:
  "segs \<noteq> [] \<Longrightarrow> list_all (list_all (\<lambda>c. \<not> issep c)) segs \<Longrightarrow> issep c \<Longrightarrow>
   segments issep (intercalate c segs) = segs"
proof (induction c segs rule: intercalate.induct)
  case (1 c)
  then show ?case by simp
next
  case (2 c s)
  then show ?case by (simp add: segments_plain)
next
  case (3 c s t ss)
  then show ?case by (simp add: segments_append)
qed

lemma foldl_normalize_step_plain:
  "list_all (\<lambda>s. s \<noteq> [] \<and> s \<noteq> ''.'' \<and> s \<noteq> ''..'') segs \<Longrightarrow>
   foldl (normalize_step aar) acc segs = acc @ segs"
  by (induction segs arbitrary: acc) (simp_all add: normalize_step_def)

lemma intercalate_nonempty:
  "segs \<noteq> [] \<Longrightarrow> list_all (\<lambda>s. s \<noteq> []) segs \<Longrightarrow> intercalate c segs \<noteq> []"
  by (induction c segs rule: intercalate.induct) simp_all

lemma last_intercalate:
  "segs \<noteq> [] \<Longrightarrow> list_all (\<lambda>s. s \<noteq> []) segs \<Longrightarrow>
   last (intercalate c segs) = last (last segs)"
  by (induction c segs rule: intercalate.induct) (simp_all add: intercalate_nonempty)

lemma plain_all:
  assumes "list_all (plain pf) segs"
  shows "list_all (list_all (\<lambda>c. \<not> isPathSeparator pf c)) segs"
    and "list_all (\<lambda>s. s \<noteq> [] \<and> s \<noteq> ''.'' \<and> s \<noteq> ''..'') segs"
    and "list_all (\<lambda>s. s \<noteq> []) segs"
  using assms by (simp_all add: list_all_iff plain_def)

lemma normalizeString_plain_segments:
  assumes "segs \<noteq> []" and "list_all (plain pf) segs"
  shows "normalizeString pf aar (intercalate (sep pf) segs) = intercalate (sep pf) segs"
  using assms
  by (simp add: normalizeString_def segments_intercalate plain_all issep_sep
      foldl_normalize_step_plain)

lemma join_vortex:
  assumes ne: "segs \<noteq> []" and pl: "list_all (plain pf) segs"
  shows "join pf [''vortex'', intercalate (sep pf) segs]
           = ''vortex'' @ sep pf # intercalate (sep pf) segs"
proof -
  let ?p = "intercalate (sep pf) segs"
  let ?path = "''vortex'' @ sep pf # ?p"
  have p: "?p \<noteq> []" by (rule intercalate_nonempty[OF ne plain_all(3)[OF pl]])
  have all: "list_all (plain pf) (''vortex'' # segs)" using pl by (simp add: plain_vortex)
  have path: "?path = intercalate (sep pf) (''vortex'' # segs)"
    using ne by (simp add: intercalate_Cons)
  have n: "normalizeString pf True ?path = ?path"
    unfolding path by (rule normalizeString_plain_segments[OF _ all]) simp
  have "last ?p = last (last segs)" by (rule last_intercalate[OF ne plain_all(3)[OF pl]])
  moreover from ne pl have "plain pf (last segs)" by (simp add: list_all_iff)
  ultimately have lp: "\<not> isPathSeparator pf (last ?p)" by (simp add: plain_last)
  from p have la: "last ?path = last ?p" by simp
  show ?thesis
  proof (cases pf)
    case Posix
    with n have n': "normalizeString Posix True (''vortex'' @ CHR ''/'' # intercalate (CHR ''/'') segs)
                      = ''vortex'' @ CHR ''/'' # intercalate (CHR ''/'') segs" by simp
    from lp la Posix have l: "last (''vortex'' @ CHR ''/'' # intercalate (CHR ''/'') segs) \<noteq> CHR ''/''"
      by simp
    from p Posix have p': "intercalate (CHR ''/'') segs \<noteq> []" by simp
    have "posix_join [''vortex'', intercalate (CHR ''/'') segs]
            = ''vortex'' @ CHR ''/'' # intercalate (CHR ''/'') segs"
      using p' l n' by (simp add: posix_join_def posix_normalize_def Let_def)
    with Posix show ?thesis by simp
  next
    case Win32
    with n have n': "normalizeString Win32 True (''vortex'' @ backslash # intercalate backslash segs)
                      = ''vortex'' @ backslash # intercalate backslash segs" by simp
    from lp la Win32 have l: "\<not> isPathSeparator Win32 (last (''vortex'' @ backslash # intercalate backslash segs))"
      by simp
    from p Win32 have p': "intercalate backslash segs \<noteq> []" by simp
    have "win32_normalize (''vortex'' @ backslash # intercalate backslash segs)
            = ''vortex'' @ backslash # intercalate backslash segs"
      by (rule win32_normalize_relative[OF _ _ _ l n']) (simp_all add: backslash_def)
    moreover have "win32_join [''vortex'', intercalate backslash segs]
            = win32_normalize (''vortex'' @ backslash # intercalate backslash segs)"
      using p' by (intro win32_join_two) (simp_all add: backslash_def)
    ultimately show ?thesis using Win32 by simp
  qed
qed

section \<open>Facts about the dispatcher\<close>

lemma success_iff: "callbackSchema_success v \<longleftrightarrow> (\<exists>f. v = JFun f)"
  by (cases v) (simp_all add: callbackSchema_success_def)

lemma success_truthy: "callbackSchema_success v \<Longrightarrow> truthy v"
  by (auto simp: success_iff)

lemma success_undefined: "\<not> callbackSchema_success JUndefined"
  by (simp add: callbackSchema_success_def)

lemma registerNpcApi_callback:
  "callbackSchema_success c \<Longrightarrow>
     registerNpcApi E w (JStr p) c m = register_callback E w p c m"
  by (simp add: registerNpcApi.simps)

lemma register_callback_handler:
  "callbackSchema_success c \<Longrightarrow> \<not> truthy m \<or> callbackSchema_success m \<Longrightarrow>
   register_callback E w p c m =
     (entry_promise E (creates w) (join (platform E) [''vortex'', p]),
      w @ [Create c (if callbackSchema_success m then Some m else None), On (creates w) ''error'',
           Listen (creates w) (join (platform E) [''vortex'', p])])"
  by (auto simp: register_callback_def success_iff Let_def)

lemma creates_append: "creates (w @ v) = creates w + creates v"
  by (simp add: creates_def)

lemma batch_loop:
  "foldl (\<lambda>(promises, w) property.
            if \<not> callbackSchema_success (js_get api property) then (promises, w)
            else
              let m = js_optional_get (unlisted E)
                                  (js_member (unlisted E) (JObj api) ''middleware'') property;
                  (p, w') =
                    (if truthy m \<and> callbackSchema_success m
                     then registerNpcApi E w (JStr (join (platform E) [name, property]))
                            (js_get api property) m
                     else registerNpcApi E w (JStr (join (platform E) [name, property]))
                            (js_get api property) JUndefined)
              in (promises @ [p], w'))
     (ps0, w0) ks
   = (ps0 @ batch_promises E name (creates w0)
              (filter (\<lambda>k. callbackSchema_success (js_get api k)) ks),
      w0 @ batch_events E name api (creates w0)
              (filter (\<lambda>k. callbackSchema_success (js_get api k)) ks))"
proof (induction ks arbitrary: ps0 w0)
  case Nil
  show ?case by simp
next
  case (Cons k ks)
  show ?case
  proof (cases "callbackSchema_success (js_get api k)")
    case False
    then show ?thesis using Cons.IH by simp
  next
    case True
    show ?thesis
    proof (cases "callbackSchema_success
                    (js_optional_get (unlisted E)
                       (js_member (unlisted E) (JObj api) ''middleware'') k)")
      case mw: True
      with True show ?thesis
        by (simp add: Cons.IH registerNpcApi_callback register_callback_handler Let_def
            middleware_of_def entry_name_def creates_append creates_def success_truthy)
    next
      case mw: False
      with True show ?thesis
        by (simp add: Cons.IH registerNpcApi_callback register_callback_handler Let_def
            middleware_of_def entry_name_def creates_append creates_def success_undefined)
    qed
  qed
qed

lemma registerNpcApi_batch:
  assumes "\<not> callbackSchema_success c" and "npcApiSchema E c = Some api"
  shows "registerNpcApi E w (JStr name) c m =
     (aggregate (batch_promises E name (creates w) (handler_keys api)),
      w @ batch_events E name api (creates w) (handler_keys api))"
  using assms
  by (subst registerNpcApi.simps) (simp add: batch_loop handler_keys_def)

lemma registerNpcApi_invalid:
  assumes "\<not> callbackSchema_success c" and "npcApiSchema E c = None"
  shows "registerNpcApi E w (JStr name) c m = (Promise 0 (Inl (ValidationError NpcApiSchema)), w)"
  using assms by (subst registerNpcApi.simps) simp

section \<open>Facts about the batch form\<close>

lemma length_batch_promises: "length (batch_promises E name n ks) = length ks"
  by (induction ks arbitrary: n) simp_all

lemma nth_batch_promises:
  "i < length ks \<Longrightarrow>
   batch_promises E name n ks ! i = entry_promise E (n + i) (entry_name E name (ks ! i))"
proof (induction ks arbitrary: n i)
  case Nil
  then show ?case by simp
next
  case (Cons k ks)
  then show ?case by (cases i) simp_all
qed

lemma first_rejection_None:
  "first_rejection ps = None \<longleftrightarrow> (\<forall>p\<in>set ps. \<not> isl (outcome p))"
  by (induction ps) (auto split: sum.splits option.splits)

lemma first_rejection_Some:
  "first_rejection ps = Some (t, e) \<Longrightarrow>
   (\<exists>i<length ps. ps ! i = Promise t (Inl e))
   \<and> (\<forall>j<length ps. isl (outcome (ps ! j)) \<longrightarrow> t \<le> settled_at (ps ! j))"
proof (induction ps arbitrary: t e)
  case Nil
  then show ?case by simp
next
  case (Cons p ps)
  show ?case
  proof (cases "outcome p")
    case (Inr v)
    with Cons.prems have fr: "first_rejection ps = Some (t, e)" by simp
    from Cons.IH[OF fr] obtain i where i: "i < length ps" "ps ! i = Promise t (Inl e)"
      and le: "\<forall>j<length ps. isl (outcome (ps ! j)) \<longrightarrow> t \<le> settled_at (ps ! j)"
      by blast
    from i have "Suc i < length (p # ps) \<and> (p # ps) ! Suc i = Promise t (Inl e)" by simp
    then have ex: "\<exists>i<length (p # ps). (p # ps) ! i = Promise t (Inl e)" by blast
    have "\<forall>j<length (p # ps). isl (outcome ((p # ps) ! j)) \<longrightarrow> t \<le> settled_at ((p # ps) ! j)"
    proof (intro allI impI)
      fix j assume "j < length (p # ps)" "isl (outcome ((p # ps) ! j))"
      with Inr le show "t \<le> settled_at ((p # ps) ! j)" by (cases j) auto
    qed
    with ex show ?thesis by blast
  next
    case (Inl e0)
    then have p: "p = Promise (settled_at p) (Inl e0)" by (cases p) simp
    show ?thesis
    proof (cases "first_rejection ps")
      case None
      with Inl Cons.prems have te: "t = settled_at p" "e = e0" by simp_all
      from None have no: "\<forall>q\<in>set ps. \<not> isl (outcome q)" by (simp add: first_rejection_None)
      have "(p # ps) ! 0 = Promise t (Inl e)" using p te by simp
      then have ex: "\<exists>i<length (p # ps). (p # ps) ! i = Promise t (Inl e)" by auto
      have "\<forall>j<length (p # ps). isl (outcome ((p # ps) ! j)) \<longrightarrow> t \<le> settled_at ((p # ps) ! j)"
      proof (intro allI impI)
        fix j assume "j < length (p # ps)" "isl (outcome ((p # ps) ! j))"
        with no te show "t \<le> settled_at ((p # ps) ! j)" by (cases j) auto
      qed
      with ex show ?thesis by blast
    next
      case (Some te')
      obtain t' e' where te': "te' = (t', e')" by (cases te')
      from Cons.IH[OF Some[unfolded te']] obtain i where i: "i < length ps" "ps ! i = Promise t' (Inl e')"
        and le: "\<forall>j<length ps. isl (outcome (ps ! j)) \<longrightarrow> t' \<le> settled_at (ps ! j)"
        by blast
      show ?thesis
      proof (cases "settled_at p \<le> t'")
        case True
        with Inl Some te' Cons.prems have te: "t = settled_at p" "e = e0" by simp_all
        have "(p # ps) ! 0 = Promise t (Inl e)" using p te by simp
        then have ex: "\<exists>i<length (p # ps). (p # ps) ! i = Promise t (Inl e)" by auto
        have "\<forall>j<length (p # ps). isl (outcome ((p # ps) ! j)) \<longrightarrow> t \<le> settled_at ((p # ps) ! j)"
        proof (intro allI impI)
          fix j assume "j < length (p # ps)" "isl (outcome ((p # ps) ! j))"
          with le te True show "t \<le> settled_at ((p # ps) ! j)" by (cases j) auto
        qed
        with ex show ?thesis by blast
      next
        case False
        with Inl Some te' Cons.prems have te: "t = t'" "e = e'" by simp_all
        from i te have "Suc i < length (p # ps) \<and> (p # ps) ! Suc i = Promise t (Inl e)" by simp
        then have ex: "\<exists>i<length (p # ps). (p # ps) ! i = Promise t (Inl e)" by blast
        have "\<forall>j<length (p # ps). isl (outcome ((p # ps) ! j)) \<longrightarrow> t \<le> settled_at ((p # ps) ! j)"
        proof (intro allI impI)
          fix j assume "j < length (p # ps)" "isl (outcome ((p # ps) ! j))"
          with le te False show "t \<le> settled_at ((p # ps) ! j)" by (cases j) auto
        qed
        with ex show ?thesis by blast
      qed
    qed
  qed
qed

lemma batch_never_rejected:
  assumes "\<forall>n name. snd (listen E n name) = Inr (ep n name)"
  shows "first_rejection (batch_promises E ns n ks) = None
     \<and> fulfilled_values (batch_promises E ns n ks)
         = map (\<lambda>(i, k). Identifier (ep i (entry_name E ns k))) (enumerate n ks)"
proof (induction ks arbitrary: n)
  case Nil
  show ?case by simp
next
  case (Cons k ks)
  obtain t r where l: "listen E n (entry_name E ns k) = (t, r)" by (cases "listen E n (entry_name E ns k)")
  with assms have "r = Inr (ep n (entry_name E ns k))" by (metis snd_conv)
  with l Cons.IH[of "Suc n"] show ?case by (simp add: entry_promise_def)
qed

lemma no_Log_batch_events: "filter is_Log (batch_events E ns api n ks) = []"
  by (induction ks arbitrary: n) simp_all

lemma no_Close_batch_events: "filter is_Close (batch_events E ns api n ks) = []"
  by (induction ks arbitrary: n) simp_all



lemma entry_promise_error:
  "outcome (entry_promise E n name) = Inl e \<Longrightarrow> \<exists>reason. e = RegistrationError reason"
  by (cases "listen E n name") (auto simp: entry_promise_def map_sum_def split: sum.splits)

lemma aggregate_outcome_Inl:
  "outcome (aggregate ps) = Inl e \<longleftrightarrow> (\<exists>t. first_rejection ps = Some (t, e))"
  by (auto simp: aggregate_def promise_all_def split: option.splits)

section \<open>The claims\<close>

text \<open>
  Claim C1, amended.  A first argument that is not a string makes the call fail at once
  with a validation error, in the single and in the batch form, and the world is left as
  it was: no endpoint is created and no collaborator is called.  (The schema is
  \<^verbatim>\<open>z.string()\<close>, so the empty string passes: see the counterexample.)
\<close>

theorem C1_non_string_rejected:
  "(\<forall>s. pathOrNamespace \<noteq> JStr s) \<Longrightarrow>
   registerNpcApi E w pathOrNamespace callbackOrApi middleware =
     (Promise 0 (Inl (ValidationError StringSchema)), w)"
  by (cases pathOrNamespace) (simp_all add: registerNpcApi.simps)

text \<open>The theorem at concrete calls.\<close>

theorem C1_non_string_rejected_witness:
  "registerNpcApi posix_env [] (JNum 42) (JFun 0) JUndefined =
     (Promise 0 (Inl (ValidationError StringSchema)), [])
   \<and> registerNpcApi posix_env [] JUndefined (JObj [(''a'', JFun 0)]) JUndefined =
     (Promise 0 (Inl (ValidationError StringSchema)), [])"
proof
  show "registerNpcApi posix_env [] (JNum 42) (JFun 0) JUndefined =
     (Promise 0 (Inl (ValidationError StringSchema)), [])"
    by (rule C1_non_string_rejected) simp
  show "registerNpcApi posix_env [] JUndefined (JObj [(''a'', JFun 0)]) JUndefined =
     (Promise 0 (Inl (ValidationError StringSchema)), [])"
    by (rule C1_non_string_rejected) simp
qed

text \<open>
  Counterexample to C1 as stated: the empty string is not refused.  The call creates an
  endpoint and listens on \<^verbatim>\<open>join('vortex', '')\<close>, which is \<^verbatim>\<open>vortex\<close>.
\<close>

theorem C1_empty_string_accepted:
  "registerNpcApi posix_env [] (JStr '''') (JFun 0) JUndefined =
     (Promise 1 (Inr (Identifier (Some ''vortex''))),
      [Create (JFun 0) None, On 0 ''error'', Listen 0 ''vortex''])"
  by code_simp

text \<open>
  Claim C2, amended.  Path composition is \<^verbatim>\<open>path.join\<close> of the host platform.  On each
  platform it is a function of its arguments; a base equal to \<^verbatim>\<open>.\<close> collapses to the
  segment, and two plain segments are joined by the one separator of the platform: the
  slash on POSIX, the backslash on Windows.
\<close>

theorem C2_join_plain:
  "plain pf s \<Longrightarrow>
   join pf [''.'', s] = s \<and> (plain pf b \<longrightarrow> join pf [b, s] = b @ sep pf # s)"
  by (simp add: join_dot join_plain)

text \<open>The theorem at concrete calls.\<close>

theorem C2_join_plain_witness:
  "join Posix [''.'', ''ping''] = ''ping''
   \<and> join Posix [''nexus'', ''getGames''] = ''nexus/getGames''
   \<and> join Win32 [''.'', ''ping''] = ''ping''
   \<and> join Win32 [''nexus'', ''getGames''] = ''nexus'' @ CHR 0x5C # ''getGames''"
proof -
  have p: "plain Posix ''ping''" "plain Posix ''getGames''" "plain Posix ''nexus''"
    by (simp_all add: plain_def)
  have w: "plain Win32 ''ping''" "plain Win32 ''getGames''" "plain Win32 ''nexus''"
    by (simp_all add: plain_def backslash_def)
  from C2_join_plain[OF p(1)] C2_join_plain[OF p(2), of "''nexus''"] p(3)
       C2_join_plain[OF w(1)] C2_join_plain[OF w(2), of "''nexus''"] w(3)
  show ?thesis by (simp add: backslash_def)
qed

text \<open>
  Counterexample to C2 as stated: on Windows, \<^verbatim>\<open>join('nexus', 'getGames')\<close> has a
  backslash between the segments, not a slash.
\<close>

theorem C2_win32_separator:
  "join Win32 [''nexus'', ''getGames''] = ''nexus'' @ CHR 0x5C # ''getGames''
   \<and> join Win32 [''nexus'', ''getGames''] \<noteq> ''nexus/getGames''"
  by code_simp

text \<open>
  Claim C3, amended.  For a handler and a path made of one or more plain segments joined
  by the separator of the platform, the call creates one endpoint and listens on the root
  segment \<^verbatim>\<open>vortex\<close>, the separator and the path; when the transport reports the name it
  listens on, the call resolves to that name, which starts with \<^verbatim>\<open>vortex\<close> and ends with
  the path.
\<close>

theorem C3_plain_segments_identifier:
  assumes "segs \<noteq> []" and "list_all (plain (platform E)) segs"
    and "p = intercalate (sep (platform E)) segs"
    and "listen E (creates w) (''vortex'' @ sep (platform E) # p)
           = (t, Inr (Some (''vortex'' @ sep (platform E) # p)))"
  shows "registerNpcApi E w (JStr p) (JFun h) JUndefined
           = (Promise t (Inr (Identifier (Some (''vortex'' @ sep (platform E) # p)))),
              w @ [Create (JFun h) None, On (creates w) ''error'',
                   Listen (creates w) (''vortex'' @ sep (platform E) # p)])
         \<and> prefix ''vortex'' (''vortex'' @ sep (platform E) # p)
         \<and> suffix p (''vortex'' @ sep (platform E) # p)"
proof -
  have "join (platform E) [''vortex'', p] = ''vortex'' @ sep (platform E) # p"
    unfolding assms(3) by (rule join_vortex[OF assms(1,2)])
  with assms(4) show ?thesis
    by (simp add: registerNpcApi_callback success_iff register_callback_def entry_promise_def
        Let_def suffix_def)
qed

text \<open>
  The theorem at concrete calls: the path \<^verbatim>\<open>nexus/getGames\<close> that line 56 passes for the
  namespace \<^verbatim>\<open>nexus\<close> on POSIX, and the path \<^verbatim>\<open>ping\<close> on Windows.
\<close>

theorem C3_plain_segments_identifier_witness:
  "registerNpcApi posix_env [] (JStr ''nexus/getGames'') (JFun 0) JUndefined
     = (Promise 1 (Inr (Identifier (Some ''vortex/nexus/getGames''))),
        [Create (JFun 0) None, On 0 ''error'', Listen 0 ''vortex/nexus/getGames''])
   \<and> registerNpcApi win32_env [] (JStr ''ping'') (JFun 0) JUndefined
     = (Promise 1 (Inr (Identifier (Some (''vortex'' @ CHR 0x5C # ''ping'')))),
        [Create (JFun 0) None, On 0 ''error'', Listen 0 (''vortex'' @ CHR 0x5C # ''ping'')])"
proof -
  have s: "[''nexus'', ''getGames''] \<noteq> []" by simp
  have pl: "list_all (plain (platform posix_env)) [''nexus'', ''getGames'']"
    by (simp add: posix_env_def plain_def)
  have p: "''nexus/getGames'' = intercalate (sep (platform posix_env)) [''nexus'', ''getGames'']"
    by (simp add: posix_env_def)
  have l: "listen posix_env (creates []) (''vortex'' @ sep (platform posix_env) # ''nexus/getGames'')
             = (1, Inr (Some (''vortex'' @ sep (platform posix_env) # ''nexus/getGames'')))"
    by (simp add: posix_env_def echo_listen_def creates_def)
  have s': "[''ping''] \<noteq> []" by simp
  have pl': "list_all (plain (platform win32_env)) [''ping'']"
    by (simp add: win32_env_def plain_def backslash_def)
  have p': "''ping'' = intercalate (sep (platform win32_env)) [''ping'']"
    by simp
  have l': "listen win32_env (creates []) (''vortex'' @ sep (platform win32_env) # ''ping'')
             = (1, Inr (Some (''vortex'' @ sep (platform win32_env) # ''ping'')))"
    by (simp add: win32_env_def echo_listen_def creates_def)
  from C3_plain_segments_identifier[OF s pl p l, of 0]
       C3_plain_segments_identifier[OF s' pl' p' l', of 0]
  show ?thesis by (simp add: posix_env_def win32_env_def backslash_def creates_def)
qed

text \<open>
  Counterexample to C3 as stated: \<^verbatim>\<open>join\<close> normalises, so the path \<^verbatim>\<open>../ping\<close> cancels
  the root segment.  The call listens on \<^verbatim>\<open>ping\<close> and resolves to it: the identifier has
  no prefix \<^verbatim>\<open>vortex\<close> and the path is no suffix of it.
\<close>

theorem C3_parent_segment_escapes_root:
  "fst (registerNpcApi posix_env [] (JStr ''../ping'') (JFun 0) JUndefined)
     = Promise 1 (Inr (Identifier (Some ''ping'')))
   \<and> snd (registerNpcApi posix_env [] (JStr ''../ping'') (JFun 0) JUndefined)
     = [Create (JFun 0) None, On 0 ''error'', Listen 0 ''ping'']
   \<and> \<not> prefix ''vortex'' ''ping''
   \<and> \<not> suffix ''../ping'' ''ping''"
  by code_simp

text \<open>
  Claim C4.  For a namespace map the schema accepts and hands back, and a transport that
  refuses no name, the batch form resolves to one identifier for each property whose value
  is a handler, as many as there are such properties and in the order of the properties;
  each is what the transport reports for the name of that property.  Properties that are
  no handlers (the key \<^verbatim>\<open>middleware\<close> among them) add nothing: the call resolves and logs
  nothing.
\<close>

theorem C4_batch_identifiers:
  assumes "npcApiSchema E (JObj api) = Some api"
    and "\<forall>n name. snd (listen E n name) = Inr (ep n name)"
  shows "\<exists>ids. outcome (fst (registerNpcApi E w (JStr ns) (JObj api) m)) = Inr (Identifiers (map Identifier ids))
     \<and> length ids = length (filter (\<lambda>k. callbackSchema_success (js_get api k)) (js_keys api))
     \<and> ids = map (\<lambda>(n, k). ep n (join (platform E) [''vortex'', join (platform E) [ns, k]]))
               (enumerate (creates w) (filter (\<lambda>k. callbackSchema_success (js_get api k)) (js_keys api)))
     \<and> filter is_Log (snd (registerNpcApi E w (JStr ns) (JObj api) m)) = filter is_Log w"
proof -
  have nc: "\<not> callbackSchema_success (JObj api)" by (simp add: success_iff)
  note r = registerNpcApi_batch[OF nc assms(1), of w ns m]
  from batch_never_rejected[OF assms(2), of ns "creates w" "handler_keys api"]
  have "outcome (aggregate (batch_promises E ns (creates w) (handler_keys api)))
        = Inr (Identifiers (map Identifier (map (\<lambda>(n, k). ep n (entry_name E ns k))
             (enumerate (creates w) (handler_keys api)))))"
    by (simp add: aggregate_def promise_all_def case_prod_unfold comp_def)
  then show ?thesis
    by (simp add: r no_Log_batch_events handler_keys_def entry_name_def)
qed

text \<open>The theorem at concrete calls.\<close>

theorem C4_batch_identifiers_witness:
  "\<exists>ids. outcome (fst (registerNpcApi posix_env []  (JStr ''x'')
            (JObj [(''a'', JFun 1), (''b'', JNum 42), (''c'', JFun 3),
                   (''middleware'', JObj [(''a'', JFun 2)])]) JUndefined))
          = Inr (Identifiers (map Identifier ids))
     \<and> length ids = 2
     \<and> ids = [Some ''vortex/x/a'', Some ''vortex/x/c'']
     \<and> filter is_Log (snd (registerNpcApi posix_env []  (JStr ''x'')
            (JObj [(''a'', JFun 1), (''b'', JNum 42), (''c'', JFun 3),
                   (''middleware'', JObj [(''a'', JFun 2)])]) JUndefined)) = []"
proof -
  let ?api = "[(''a'', JFun 1), (''b'', JNum 42), (''c'', JFun 3),
               (''middleware'', JObj [(''a'', JFun 2)])]"
  have v: "npcApiSchema posix_env (JObj ?api) = Some ?api"
    by (simp add: posix_env_def namespace_schema_def)
  have l: "\<forall>n name. snd (listen posix_env n name) = Inr ((\<lambda>n name. Some name) n name)"
    by (simp add: posix_env_def echo_listen_def)
  have k: "filter (\<lambda>k. callbackSchema_success (js_get ?api k)) (js_keys ?api) = [''a'', ''c'']"
    by (simp add: js_keys_def js_get_def callbackSchema_success_def)
  have j: "posix_join [''vortex'', posix_join [''x'', ''a'']] = ''vortex/x/a''"
          "posix_join [''vortex'', posix_join [''x'', ''c'']] = ''vortex/x/c''"
    by code_simp+
  from C4_batch_identifiers[OF v l, of "[]" "''x''" JUndefined]
  show ?thesis
    unfolding k by (simp add: posix_env_def creates_def j)
qed

text \<open>
  Claim C5, amended.  Which form runs is read off the second argument alone, whatever the
  third: a function selects the single form; every other value selects the batch form,
  where \<^verbatim>\<open>npcApiSchema\<close> validates it and each handler property is registered.  The third
  argument reaches the single form only.
\<close>

theorem C5_dispatch_on_second_argument:
  "registerNpcApi E w (JStr p) c m =
     (case c of
        JFun f \<Rightarrow> register_callback E w p c m
      | _ \<Rightarrow>
         (case npcApiSchema E c of
            None \<Rightarrow> (Promise 0 (Inl (ValidationError NpcApiSchema)), w)
          | Some api \<Rightarrow>
              (aggregate (batch_promises E p (creates w) (handler_keys api)),
               w @ batch_events E p api (creates w) (handler_keys api))))"
proof (cases "callbackSchema_success c")
  case True
  then show ?thesis by (auto simp: success_iff registerNpcApi_callback)
next
  case False
  then have "(case c of JFun f \<Rightarrow> x f | _ \<Rightarrow> y) = y" for x :: "nat \<Rightarrow> reg_result promise \<times> world" and y
    by (cases c) (simp_all add: success_iff)
  with False show ?thesis
    by (cases "npcApiSchema E c") (simp_all add: registerNpcApi_batch registerNpcApi_invalid)
qed

text \<open>The theorem at concrete calls.\<close>

theorem C5_dispatch_on_second_argument_witness:
  "registerNpcApi posix_env [] (JStr ''x'') (JFun 1) JUndefined =
     (Promise 1 (Inr (Identifier (Some ''vortex/x''))),
      [Create (JFun 1) None, On 0 ''error'', Listen 0 ''vortex/x''])
   \<and> registerNpcApi posix_env [] (JStr ''x'') (JObj [(''a'', JFun 1)]) (JFun 2) =
     (Promise 1 (Inr (Identifiers [Identifier (Some ''vortex/x/a'')])),
      [Create (JFun 1) None, On 0 ''error'', Listen 0 ''vortex/x/a''])"
proof
  show "registerNpcApi posix_env [] (JStr ''x'') (JFun 1) JUndefined =
     (Promise 1 (Inr (Identifier (Some ''vortex/x''))),
      [Create (JFun 1) None, On 0 ''error'', Listen 0 ''vortex/x''])"
    by (subst C5_dispatch_on_second_argument) code_simp
  show "registerNpcApi posix_env [] (JStr ''x'') (JObj [(''a'', JFun 1)]) (JFun 2) =
     (Promise 1 (Inr (Identifiers [Identifier (Some ''vortex/x/a'')])),
      [Create (JFun 1) None, On 0 ''error'', Listen 0 ''vortex/x/a''])"
    by (subst C5_dispatch_on_second_argument) code_simp
qed

text \<open>
  Counterexample to C5 as stated: a string as the second argument does not select the
  single form.  It is refused by the namespace schema of the batch form; the single form
  would have refused it by \<^verbatim>\<open>callbackSchema\<close>.
\<close>

theorem C5_string_is_no_handler:
  "registerNpcApi posix_env [] (JStr ''x'') (JStr ''ping'') JUndefined =
     (Promise 0 (Inl (ValidationError NpcApiSchema)), [])
   \<and> register_callback posix_env [] ''x'' (JStr ''ping'') JUndefined =
     (Promise 0 (Inl (ValidationError CallbackSchema)), [])"
  by code_simp

text \<open>
  Claim C6.  In the batch form, a map that fails \<^verbatim>\<open>npcApiSchema\<close> makes the call fail with
  a validation error and leaves the world as it was: no endpoint is created, nothing
  listens.
\<close>

theorem C6_invalid_map_no_effect:
  assumes "\<not> callbackSchema_success api" and "npcApiSchema E api = None"
  shows "registerNpcApi E w (JStr ns) api m = (Promise 0 (Inl (ValidationError NpcApiSchema)), w)
     \<and> creates (snd (registerNpcApi E w (JStr ns) api m)) = creates w"
  using assms by (simp add: registerNpcApi_invalid)

text \<open>The theorem at concrete calls.\<close>

theorem C6_invalid_map_no_effect_witness:
  "registerNpcApi posix_env [] (JStr ''x'') (JObj [(''a'', JFun 1), (''middleware'', JNum 3)]) JUndefined
     = (Promise 0 (Inl (ValidationError NpcApiSchema)), [])
   \<and> creates (snd (registerNpcApi posix_env [] (JStr ''x'')
        (JObj [(''a'', JFun 1), (''middleware'', JNum 3)]) JUndefined)) = creates []"
  by (rule C6_invalid_map_no_effect)
     (simp_all add: callbackSchema_success_def posix_env_def namespace_schema_def)

text \<open>
  Claim C7, at the input where the code departs from it.  The map holds a handler under
  the key \<^verbatim>\<open>valueOf\<close> and an empty \<^verbatim>\<open>middleware\<close> map.  Line 55 reads
  \<^verbatim>\<open>api.middleware?.[property]\<close> through the prototype chain and finds
  \<^verbatim>\<open>Object.prototype.valueOf\<close>, a function, so line 56 creates the endpoint with that
  function as its middleware, though the middleware map has no entry under the key.
\<close>

theorem C7_inherited_member_attached:
  "registerNpcApi posix_env [] (JStr ''x'')
      (JObj [(''valueOf'', JFun 1), (''middleware'', JObj [])]) JUndefined
     = (Promise 1 (Inr (Identifiers [Identifier (Some ''vortex/x/valueOf'')])),
        [Create (JFun 1) (Some (JFun 1006)), On 0 ''error'', Listen 0 ''vortex/x/valueOf''])
   \<and> js_keys [] = ([] :: string list)
   \<and> js_optional_get (unlisted posix_env) (JObj []) ''valueOf'' = object_prototype ''valueOf''
   \<and> object_prototype ''valueOf'' = JFun 1006"
  by code_simp




text \<open>
  Claim C9.  In the batch form, when the transport refuses the name of some handler
  property, the call is rejected with the refusal that settles first.  Whatever the
  transport answers, every handler property has its endpoint created, subscribed and
  asked to listen, once each and in order, and no endpoint is closed.
\<close>

theorem C9_first_failure_no_rollback:
  assumes "\<not> callbackSchema_success c" and "npcApiSchema E c = Some api"
    and "j < length (handler_keys api)"
    and "isl (snd (listen E (creates w + j) (entry_name E ns (handler_keys api ! j))))"
  shows "\<exists>i t reason. i < length (handler_keys api)
           \<and> listen E (creates w + i) (entry_name E ns (handler_keys api ! i)) = (t, Inl reason)
           \<and> fst (registerNpcApi E w (JStr ns) c m) = Promise t (Inl (RegistrationError reason))
           \<and> (\<forall>i'<length (handler_keys api).
                 isl (snd (listen E (creates w + i') (entry_name E ns (handler_keys api ! i'))))
                 \<longrightarrow> t \<le> fst (listen E (creates w + i') (entry_name E ns (handler_keys api ! i'))))
           \<and> snd (registerNpcApi E w (JStr ns) c m)
               = w @ batch_events E ns api (creates w) (handler_keys api)
           \<and> filter is_Close (snd (registerNpcApi E w (JStr ns) c m)) = filter is_Close w"
proof -
  let ?ks = "handler_keys api"
  let ?ps = "batch_promises E ns (creates w) ?ks"
  note r = registerNpcApi_batch[OF assms(1,2), of w ns m]
  have nth: "?ps ! i = entry_promise E (creates w + i) (entry_name E ns (?ks ! i))"
    if "i < length ?ks" for i
    using that by (rule nth_batch_promises)
  have rej: "isl (outcome (entry_promise E n name)) \<longleftrightarrow> isl (snd (listen E n name))" for n name
    by (cases "listen E n name") (auto simp: entry_promise_def isl_map_sum)
  have st: "settled_at (entry_promise E n name) = fst (listen E n name)" for n name
    by (cases "listen E n name") (auto simp: entry_promise_def)
  from assms(3,4) have "isl (outcome (?ps ! j))" by (simp add: nth rej)
  moreover from assms(3) have "?ps ! j \<in> set ?ps" by (simp add: length_batch_promises)
  ultimately have "first_rejection ?ps \<noteq> None"
    by (auto simp: first_rejection_None)
  then obtain t e where fr: "first_rejection ?ps = Some (t, e)" by auto
  from first_rejection_Some[OF fr] obtain i where
    i: "i < length ?ks" "?ps ! i = Promise t (Inl e)"
    and le: "\<forall>j<length ?ks. isl (outcome (?ps ! j)) \<longrightarrow> t \<le> settled_at (?ps ! j)"
    by (auto simp: length_batch_promises)
  from i have ep: "entry_promise E (creates w + i) (entry_name E ns (?ks ! i)) = Promise t (Inl e)"
    by (simp add: nth)
  then obtain reason where l: "listen E (creates w + i) (entry_name E ns (?ks ! i)) = (t, Inl reason)"
    and e: "e = RegistrationError reason"
    by (cases "listen E (creates w + i) (entry_name E ns (?ks ! i))")
       (auto simp: entry_promise_def map_sum_def split: sum.splits)
  have agg: "aggregate ?ps = Promise t (Inl (RegistrationError reason))"
    using fr e by (simp add: aggregate_def promise_all_def)
  have le': "\<forall>i'<length ?ks.
                 isl (snd (listen E (creates w + i') (entry_name E ns (?ks ! i'))))
                 \<longrightarrow> t \<le> fst (listen E (creates w + i') (entry_name E ns (?ks ! i')))"
    using le by (simp add: nth rej st)
  show ?thesis
    apply (rule exI[of _ i], rule exI[of _ t], rule exI[of _ reason])
    using i(1) l agg le' by (simp add: r no_Close_batch_events)
qed

text \<open>The theorem at concrete calls.\<close>

theorem C9_first_failure_no_rollback_witness:
  "\<exists>i t reason. i < length (handler_keys [(''a'', JFun 1), (''b'', JFun 2), (''c'', JFun 3)])
     \<and> listen (posix_env\<lparr>listen := busy_listen ''vortex/x/b''\<rparr>) (creates [] + i)
          (entry_name (posix_env\<lparr>listen := busy_listen ''vortex/x/b''\<rparr>) ''x''
             (handler_keys [(''a'', JFun 1), (''b'', JFun 2), (''c'', JFun 3)] ! i)) = (t, Inl reason)
     \<and> fst (registerNpcApi (posix_env\<lparr>listen := busy_listen ''vortex/x/b''\<rparr>) [] (JStr ''x'')
             (JObj [(''a'', JFun 1), (''b'', JFun 2), (''c'', JFun 3)]) JUndefined)
         = Promise t (Inl (RegistrationError reason))
     \<and> snd (registerNpcApi (posix_env\<lparr>listen := busy_listen ''vortex/x/b''\<rparr>) [] (JStr ''x'')
             (JObj [(''a'', JFun 1), (''b'', JFun 2), (''c'', JFun 3)]) JUndefined)
         = [Create (JFun 1) None, On 0 ''error'', Listen 0 ''vortex/x/a'',
            Create (JFun 2) None, On 1 ''error'', Listen 1 ''vortex/x/b'',
            Create (JFun 3) None, On 2 ''error'', Listen 2 ''vortex/x/c'']"
proof -
  let ?E = "posix_env\<lparr>listen := busy_listen ''vortex/x/b''\<rparr>"
  let ?api = "[(''a'', JFun 1), (''b'', JFun 2), (''c'', JFun 3)]"
  have nc: "\<not> callbackSchema_success (JObj ?api)" by (simp add: callbackSchema_success_def)
  have v: "npcApiSchema ?E (JObj ?api) = Some ?api"
    by (simp add: posix_env_def namespace_schema_def)
  have k: "handler_keys ?api = [''a'', ''b'', ''c'']" by code_simp
  have j: "1 < length (handler_keys ?api)" unfolding k by simp
  have n: "entry_name ?E ''x'' ''b'' = ''vortex/x/b''" by code_simp
  have b: "isl (snd (listen ?E (creates [] + 1) (entry_name ?E ''x'' (handler_keys ?api ! 1))))"
    unfolding k by (simp add: n busy_listen_def)
  have ev: "batch_events ?E ''x'' ?api (creates []) (handler_keys ?api)
     = [Create (JFun 1) None, On 0 ''error'', Listen 0 ''vortex/x/a'',
            Create (JFun 2) None, On 1 ''error'', Listen 1 ''vortex/x/b'',
            Create (JFun 3) None, On 2 ''error'', Listen 2 ''vortex/x/c'']"
    by code_simp
  from C9_first_failure_no_rollback[OF nc v j b, of JUndefined]
  show ?thesis
    unfolding ev by (simp only: append_Nil) blast
qed

text \<open>
  Claim C10.  When the second argument is no handler, the third is ignored: any two values
  in its place give the same promise and the same world, so the call equals the one with
  two arguments.
\<close>

theorem C10_third_argument_ignored:
  "\<not> callbackSchema_success api \<Longrightarrow>
   registerNpcApi E w namespace api middleware = registerNpcApi E w namespace api middleware'"
  by (subst (1 2) registerNpcApi.simps) (simp split: sum.splits)

text \<open>The theorem at concrete calls.\<close>

theorem C10_third_argument_ignored_witness:
  "registerNpcApi posix_env [] (JStr ''x'') (JObj [(''a'', JFun 1)]) (JNum 7)
     = registerNpcApi posix_env [] (JStr ''x'') (JObj [(''a'', JFun 1)]) JUndefined"
  by (rule C10_third_argument_ignored) (simp add: callbackSchema_success_def)

end
